theory Spec2Isabelle
  imports Main "HOL-Library.Sublist"
begin

section \<open>Data model of the entity filter groups provider\<close>

text \<open>
  The provider keeps its dictionaries in plain JavaScript objects
  (\<^verbatim>\<open>{ [filterGroupId: string]: FilterGroup }\<close> and friends). Such an object is modelled
  as an association list in property order whose keys are pairwise different; the three
  object operations the source uses are written out below. Two things about JavaScript
  objects are outside the model: integer-like keys are enumerated before the other keys
  (no statement below depends on the enumeration order), and the special property name
  \<^verbatim>\<open>__proto__\<close> is taken to be used neither as a group id nor as a filter id.
\<close>

type_synonym 'v obj = "(string \<times> 'v) list"

text \<open>\<^verbatim>\<open>obj[k] = v\<close>: replace the value in place when the key is there, append otherwise.\<close>

primrec assign :: "string \<Rightarrow> 'v \<Rightarrow> 'v obj \<Rightarrow> 'v obj" where
  "assign k v [] = [(k, v)]"
| "assign k v (p # ps) = (if fst p = k then (k, v) # ps else p # assign k v ps)"

text \<open>\<^verbatim>\<open>delete obj[k]\<close>.\<close>

definition delete_prop :: "string \<Rightarrow> 'v obj \<Rightarrow> 'v obj" where
  "delete_prop k ps = filter (\<lambda>p. fst p \<noteq> k) ps"

text \<open>\<^verbatim>\<open>Object.fromEntries(es)\<close>: the entries are assigned one after the other.\<close>

definition fromEntries :: "(string \<times> 'v) list \<Rightarrow> 'v obj" where
  "fromEntries es = foldl (\<lambda>ob e. assign (fst e) (snd e) ob) [] es"

text \<open>
  Modelled from the spec: the type declarations of \<^verbatim>\<open>./types\<close> (\<^verbatim>\<open>EntityFilterFn\<close>,
  \<^verbatim>\<open>FilterGroup\<close>, \<^verbatim>\<open>FilterGroupState\<close>, \<^verbatim>\<open>FilterGroupStates\<close>) are not part of the
  sources at hand. Their shape is the one the provider relies on: a filter is a pure
  predicate on entities, a group is \<^verbatim>\<open>{ filters: { [filterId]: EntityFilterFn } }\<close>, a
  group state is \<^verbatim>\<open>{ filters: { [filterId]: { isSelected, matchCount } } }\<close>, and the
  published state of a group is one of \<^verbatim>\<open>{ type: 'loading' }\<close>,
  \<^verbatim>\<open>{ type: 'error', error }\<close> and \<^verbatim>\<open>{ type: 'ready', state }\<close>. The field
  \<^verbatim>\<open>filters\<close> of a group state is called \<open>state_filters\<close> here, as a record field
  name can be used once only.
\<close>

type_synonym 'e EntityFilterFn = "'e \<Rightarrow> bool"

record 'e FilterGroup =
  filters :: "'e EntityFilterFn obj"

record FilterState =
  isSelected :: bool
  matchCount :: nat

record FilterGroupState =
  state_filters :: "FilterState obj"

datatype 'err FilterGroupStates =
    Loading
  | Error 'err
  | Ready FilterGroupState

text \<open>The selection key \<^verbatim>\<open>`${filterGroupId}.${filterId}`\<close>.\<close>

definition selectionKey :: "string \<Rightarrow> string \<Rightarrow> string" where
  "selectionKey filterGroupId filterId = filterGroupId @ ''.'' @ filterId"

section \<open>The matching engine\<close>

subsection \<open>buildMatchingEntities\<close>

text \<open>
  The inner loop of \<^verbatim>\<open>buildMatchingEntities\<close>: it walks \<^verbatim>\<open>Object.entries(filterGroup.filters)\<close>
  and pushes the predicate of every filter whose key is in the selection set.
\<close>

fun groupFilters_loop ::
  "string \<Rightarrow> string set \<Rightarrow> 'e EntityFilterFn obj \<Rightarrow> 'e EntityFilterFn list \<Rightarrow> 'e EntityFilterFn list"
where
  "groupFilters_loop filterGroupId selectedFilterKeys [] groupFilters = groupFilters"
| "groupFilters_loop filterGroupId selectedFilterKeys ((filterId, filterFn) # rest) groupFilters =
     groupFilters_loop filterGroupId selectedFilterKeys rest
       (if selectionKey filterGroupId filterId \<in> selectedFilterKeys
        then groupFilters @ [filterFn] else groupFilters)"

text \<open>
  The outer loop: it walks \<^verbatim>\<open>Object.entries(filterGroups)\<close>, skips the excluded group
  (\<^verbatim>\<open>continue\<close>), and pushes \<^verbatim>\<open>entity => groupFilters.some(fn => fn(entity))\<close> for every
  group with a non-empty \<^verbatim>\<open>groupFilters\<close>.
\<close>

fun allFilters_loop ::
  "string option \<Rightarrow> string set \<Rightarrow> 'e FilterGroup obj \<Rightarrow> 'e EntityFilterFn list \<Rightarrow> 'e EntityFilterFn list"
where
  "allFilters_loop excludeFilterGroupId selectedFilterKeys [] allFilters = allFilters"
| "allFilters_loop excludeFilterGroupId selectedFilterKeys ((filterGroupId, filterGroup) # rest) allFilters =
     (if excludeFilterGroupId = Some filterGroupId
      then allFilters_loop excludeFilterGroupId selectedFilterKeys rest allFilters
      else
        (let groupFilters = groupFilters_loop filterGroupId selectedFilterKeys (filters filterGroup) []
         in allFilters_loop excludeFilterGroupId selectedFilterKeys rest
              (if groupFilters \<noteq> []
               then allFilters @ [\<lambda>entity. list_ex (\<lambda>fn. fn entity) groupFilters]
               else allFilters)))"

text \<open>
  \<^verbatim>\<open>entities?.filter(entity => allFilters.every(fn => fn(entity))) ?? []\<close>; the optional
  arguments \<^verbatim>\<open>entities\<close> and \<^verbatim>\<open>excludeFilterGroupId\<close> are options.
\<close>

definition buildMatchingEntities ::
  "'e FilterGroup obj \<Rightarrow> string set \<Rightarrow> 'e list option \<Rightarrow> string option \<Rightarrow> 'e list"
where
  "buildMatchingEntities filterGroups selectedFilterKeys entities excludeFilterGroupId =
     (let allFilters = allFilters_loop excludeFilterGroupId selectedFilterKeys filterGroups []
      in case entities of
           None \<Rightarrow> []
         | Some es \<Rightarrow> filter (\<lambda>entity. list_all (\<lambda>fn. fn entity) allFilters) es)"

subsection \<open>buildStates\<close>

text \<open>
  The inner loop of the ready branch: one \<^verbatim>\<open>{ isSelected, matchCount }\<close> per filter of
  the group, counted on \<^verbatim>\<open>otherMatchingEntities\<close>.
\<close>

fun groupState_loop ::
  "string \<Rightarrow> string set \<Rightarrow> 'e list \<Rightarrow> 'e EntityFilterFn obj \<Rightarrow> FilterState obj \<Rightarrow> FilterState obj"
where
  "groupState_loop filterGroupId selectedFilterKeys otherMatchingEntities [] fs = fs"
| "groupState_loop filterGroupId selectedFilterKeys otherMatchingEntities ((filterId, filterFn) # rest) fs =
     groupState_loop filterGroupId selectedFilterKeys otherMatchingEntities rest
       (assign filterId
          \<lparr> isSelected = (selectionKey filterGroupId filterId \<in> selectedFilterKeys),
            matchCount = length (filter filterFn otherMatchingEntities) \<rparr> fs)"

text \<open>
  The outer loop of the ready branch: for every group, the entities matching all the
  other groups, then the group's state.
\<close>

fun result_loop ::
  "'e FilterGroup obj \<Rightarrow> string set \<Rightarrow> 'e list \<Rightarrow> 'e FilterGroup obj
     \<Rightarrow> 'err FilterGroupStates obj \<Rightarrow> 'err FilterGroupStates obj"
where
  "result_loop filterGroups selectedFilterKeys entities [] result = result"
| "result_loop filterGroups selectedFilterKeys entities ((filterGroupId, filterGroup) # rest) result =
     (let otherMatchingEntities =
            buildMatchingEntities filterGroups selectedFilterKeys (Some entities) (Some filterGroupId);
          groupState =
            \<lparr> state_filters =
                groupState_loop filterGroupId selectedFilterKeys otherMatchingEntities
                  (filters filterGroup) [] \<rparr>
      in result_loop filterGroups selectedFilterKeys entities rest
           (assign filterGroupId (Ready groupState) result))"

definition buildStates ::
  "'e FilterGroup obj \<Rightarrow> string set \<Rightarrow> 'e list option \<Rightarrow> 'err option \<Rightarrow> 'err FilterGroupStates obj"
where
  "buildStates filterGroups selectedFilterKeys entities error =
     (case error of
        Some err \<Rightarrow>
          fromEntries (map (\<lambda>filterGroupId. (filterGroupId, Error err)) (map fst filterGroups))
      | None \<Rightarrow>
          (case entities of
             None \<Rightarrow>
               fromEntries (map (\<lambda>filterGroupId. (filterGroupId, Loading)) (map fst filterGroups))
           | Some es \<Rightarrow> result_loop filterGroups selectedFilterKeys es filterGroups []))"

section \<open>The hook \<^verbatim>\<open>useProvideEntityFilters\<close>\<close>

text \<open>
  The state of the hook between two calls of its callbacks: the result of the entity
  load (\<^verbatim>\<open>value: entities\<close> and \<^verbatim>\<open>error\<close> of \<^verbatim>\<open>useAsync\<close>, both optional), the two
  \<^verbatim>\<open>useState\<close> values \<^verbatim>\<open>filterGroups\<close> and \<^verbatim>\<open>filterGroupStates\<close>, and the two refs
  \<^verbatim>\<open>selectedFilterKeys.current\<close> and \<^verbatim>\<open>matchingEntities.current\<close>. The
  \<^verbatim>\<open>Set<string>\<close> of selection keys is a set of strings.
\<close>

record ('e, 'err) store =
  entities :: "'e list option"
  error :: "'err option"
  filterGroups :: "'e FilterGroup obj"
  filterGroupStates :: "'err FilterGroupStates obj"
  selectedFilterKeys :: "string set"
  matchingEntities :: "'e list"

text \<open>
  Each callback is modelled as a function from the state before the call to the state
  after the call, once React has applied the state updates the call queued, in the order
  they were queued: \<^verbatim>\<open>setX(f)\<close> with an updater replaces the value \<open>x\<close> by \<open>f x\<close>,
  \<^verbatim>\<open>setX(v)\<close> replaces it by \<open>v\<close>. A ref is assigned at once. Inside a callback the
  names \<^verbatim>\<open>filterGroups\<close>, \<^verbatim>\<open>entities\<close> and \<^verbatim>\<open>error\<close> are the constants of the render
  that created it: calling \<^verbatim>\<open>setFilterGroups\<close> does not change what \<^verbatim>\<open>filterGroups\<close>
  denotes in the rest of the callback's body. The callbacks list \<^verbatim>\<open>filterGroups\<close> among
  their dependencies, so a caller that uses the callback of the latest render gets the
  registry as it is before the call; this is the reading taken here.
\<close>

text \<open>
  \<^verbatim>\<open>register\<close>. The registry update is queued with an updater; the selection keys are
  extended when \<^verbatim>\<open>initialSelectedFilterIds?.length\<close> is truthy; the states and the
  matching entities are then built from \<^verbatim>\<open>filterGroups\<close>, the registry of the render.
\<close>

definition register ::
  "string \<Rightarrow> 'e FilterGroup \<Rightarrow> string list option \<Rightarrow> ('e, 'err) store \<Rightarrow> ('e, 'err) store"
where
  "register filterGroupId filterGroup initialSelectedFilterIds s =
     (let newGroups = assign filterGroupId filterGroup (filterGroups s);
          newKeys =
            (case initialSelectedFilterIds of
               None \<Rightarrow> selectedFilterKeys s
             | Some ids \<Rightarrow>
                 if ids \<noteq> []
                 then fold (\<lambda>filterId keys. insert (selectionKey filterGroupId filterId) keys)
                        ids (selectedFilterKeys s)
                 else selectedFilterKeys s)
      in s \<lparr> filterGroups := newGroups,
             selectedFilterKeys := newKeys,
             filterGroupStates := buildStates (filterGroups s) newKeys (entities s) (error s),
             matchingEntities := buildMatchingEntities (filterGroups s) newKeys (entities s) None \<rparr>)"

text \<open>
  \<^verbatim>\<open>unregister\<close>. Two updates of \<^verbatim>\<open>filterGroupStates\<close> are queued: the updater that
  deletes the group's entry, then the value built from \<^verbatim>\<open>filterGroups\<close>, the registry
  of the render.
\<close>

definition unregister :: "string \<Rightarrow> ('e, 'err) store \<Rightarrow> ('e, 'err) store" where
  "unregister filterGroupId s =
     (let newGroups = delete_prop filterGroupId (filterGroups s);
          states1 = delete_prop filterGroupId (filterGroupStates s);
          states2 =
            (\<lambda>oldStates. buildStates (filterGroups s) (selectedFilterKeys s) (entities s) (error s))
              states1
      in s \<lparr> filterGroups := newGroups,
             filterGroupStates := states2,
             matchingEntities :=
               buildMatchingEntities (filterGroups s) (selectedFilterKeys s) (entities s) None \<rparr>)"

text \<open>
  \<^verbatim>\<open>setGroupSelectedFilters\<close>. The new set keeps the keys that do not start with
  \<^verbatim>\<open>`${filterGroupId}.`\<close> and gets one key per element of \<^verbatim>\<open>filters\<close>.
\<close>

definition setGroupSelectedFilters ::
  "string \<Rightarrow> string list \<Rightarrow> ('e, 'err) store \<Rightarrow> ('e, 'err) store"
where
  "setGroupSelectedFilters filterGroupId filterIds s =
     (let kept = {key \<in> selectedFilterKeys s. \<not> prefix (filterGroupId @ ''.'') key};
          result = fold (\<lambda>key r. insert (selectionKey filterGroupId key) r) filterIds kept
      in s \<lparr> selectedFilterKeys := result,
             filterGroupStates := buildStates (filterGroups s) result (entities s) (error s),
             matchingEntities := buildMatchingEntities (filterGroups s) result (entities s) None \<rparr>)"

text \<open>The state of the hook at its first render, for a given result of the entity load.\<close>

definition initial :: "'e list option \<Rightarrow> 'err option \<Rightarrow> ('e, 'err) store" where
  "initial ents err =
     \<lparr> entities = ents, error = err, filterGroups = [], filterGroupStates = [],
       selectedFilterKeys = {}, matchingEntities = [] \<rparr>"

section \<open>The combination rule in the words of the specification\<close>

text \<open>
  A filter of a group is selected when its key is in the selection set. A group
  constrains an entity only when it has a selected filter, and then asks that one of its
  selected filters accepts the entity; an entity matches when every group of the registry
  other than the excluded one is satisfied.
\<close>

definition selectedFiltersOf :: "string \<Rightarrow> 'e FilterGroup \<Rightarrow> string set \<Rightarrow> 'e EntityFilterFn list" where
  "selectedFiltersOf g grp sel =
     map snd (filter (\<lambda>p. selectionKey g (fst p) \<in> sel) (filters grp))"

definition groupAccepts :: "string \<Rightarrow> 'e FilterGroup \<Rightarrow> string set \<Rightarrow> 'e \<Rightarrow> bool" where
  "groupAccepts g grp sel e =
     (selectedFiltersOf g grp sel = [] \<or> list_ex (\<lambda>fn. fn e) (selectedFiltersOf g grp sel))"

definition matchesAll :: "'e FilterGroup obj \<Rightarrow> string set \<Rightarrow> string option \<Rightarrow> 'e \<Rightarrow> bool" where
  "matchesAll reg sel excl e =
     list_all (\<lambda>p. excl = Some (fst p) \<or> groupAccepts (fst p) (snd p) sel e) reg"

section \<open>A concrete scenario\<close>

text \<open>
  Three entities with an id and a tag, a group \<open>G1\<close> with the filter \<open>f1\<close>
  (the tag is \<open>a\<close>) and a group \<open>G2\<close> with the filter \<open>f2\<close> (the id is above 1).
\<close>

definition scenario_entities :: "(nat \<times> string) list" where
  "scenario_entities = [(1, ''a''), (2, ''b''), (3, ''a'')]"

definition scenario_G1 :: "(nat \<times> string) FilterGroup" where
  "scenario_G1 = \<lparr> filters = [(''f1'', \<lambda>e. snd e = ''a'')] \<rparr>"

definition scenario_G2 :: "(nat \<times> string) FilterGroup" where
  "scenario_G2 = \<lparr> filters = [(''f2'', \<lambda>e. 1 < fst e)] \<rparr>"

definition scenario_groups :: "(nat \<times> string) FilterGroup obj" where
  "scenario_groups = [(''G1'', scenario_G1), (''G2'', scenario_G2)]"

text \<open>
  The hook after \<open>G1\<close> and then \<open>G2\<close> have been registered, each with its filter
  selected from the start, the entities being loaded.
\<close>

definition scenario_store :: "(nat \<times> string, string) store" where
  "scenario_store =
     register ''G2'' scenario_G2 (Some [''f2''])
       (register ''G1'' scenario_G1 (Some [''f1''])
          (initial (Some scenario_entities) None))"

text \<open>
  A group \<open>Tag\<close> with two filters, \<open>a\<close> (the tag is \<open>a\<close>) and \<open>b\<close> (the tag is \<open>b\<close>),
  registered before \<open>G2\<close>.
\<close>

definition scenario_Tag :: "(nat \<times> string) FilterGroup" where
  "scenario_Tag = \<lparr> filters = [(''a'', \<lambda>e. snd e = ''a''), (''b'', \<lambda>e. snd e = ''b'')] \<rparr>"

definition scenario_facets :: "(nat \<times> string) FilterGroup obj" where
  "scenario_facets = [(''Tag'', scenario_Tag), (''G2'', scenario_G2)]"

section \<open>Properties of the matching engine\<close>

subsection \<open>Objects\<close>

lemma map_of_assign: "map_of (assign k v ps) = (map_of ps)(k \<mapsto> v)"
  by (induction ps) auto

lemma keys_assign: "fst ` set (assign k v ps) = insert k (fst ` set ps)"
  by (induction ps) auto

lemma distinct_assign: "distinct (map fst ps) \<Longrightarrow> distinct (map fst (assign k v ps))"
  by (induction ps) (auto simp: keys_assign)

lemma map_of_delete_prop: "map_of (delete_prop k ps) = (map_of ps)(k := None)"
  by (induction ps) (auto simp: delete_prop_def)

lemma keys_delete_prop: "fst ` set (delete_prop k ps) = fst ` set ps - {k}"
  by (auto simp: delete_prop_def)

subsection \<open>The loops of buildMatchingEntities\<close>

lemma groupFilters_loop_eq:
  "groupFilters_loop g sel fs acc =
     acc @ map snd (filter (\<lambda>p. selectionKey g (fst p) \<in> sel) fs)"
  by (induction g sel fs acc rule: groupFilters_loop.induct) simp_all

lemma allFilters_loop_all:
  "list_all (\<lambda>fn. fn e) (allFilters_loop excl sel reg acc)
     = (list_all (\<lambda>fn. fn e) acc \<and> matchesAll reg sel excl e)"
  by (induction excl sel reg acc rule: allFilters_loop.induct)
     (auto simp: matchesAll_def groupAccepts_def selectedFiltersOf_def groupFilters_loop_eq Let_def)

lemma buildMatchingEntities_matchesAll:
  "buildMatchingEntities reg sel (Some es) excl = filter (matchesAll reg sel excl) es"
  by (simp add: buildMatchingEntities_def allFilters_loop_all)

lemma selectedFiltersOf_empty:
  "selectedFiltersOf g grp sel = [] \<longleftrightarrow> (\<forall>(f, fn) \<in> set (filters grp). selectionKey g f \<notin> sel)"
  by (auto simp: selectedFiltersOf_def filter_empty_conv)

lemma selectedFiltersOf_ex:
  "list_ex (\<lambda>fn. fn e) (selectedFiltersOf g grp sel)
     \<longleftrightarrow> (\<exists>(f, fn) \<in> set (filters grp). selectionKey g f \<in> sel \<and> fn e)"
  by (auto simp: selectedFiltersOf_def list_ex_iff) 

lemma matchesAll_iff:
  "matchesAll reg sel excl e \<longleftrightarrow>
     (\<forall>(g, grp) \<in> set reg. excl \<noteq> Some g \<longrightarrow>
        (\<exists>(f, fn) \<in> set (filters grp). selectionKey g f \<in> sel) \<longrightarrow>
        (\<exists>(f, fn) \<in> set (filters grp). selectionKey g f \<in> sel \<and> fn e))"
  unfolding matchesAll_def groupAccepts_def selectedFiltersOf_empty selectedFiltersOf_ex list_all_iff
  by (auto simp: split_def)

lemma matchesAll_others_iff:
  "matchesAll reg sel (Some g) e \<longleftrightarrow>
     (\<forall>(h, grp) \<in> set reg. h \<noteq> g \<longrightarrow>
        (\<exists>(f, fn) \<in> set (filters grp). selectionKey h f \<in> sel) \<longrightarrow>
        (\<exists>(f, fn) \<in> set (filters grp). selectionKey h f \<in> sel \<and> fn e))"
  unfolding matchesAll_def groupAccepts_def selectedFiltersOf_empty selectedFiltersOf_ex list_all_iff
  by (auto simp: split_def)

lemma buildMatchingEntities_others:
  "buildMatchingEntities reg sel (Some es) (Some g) =
     filter (\<lambda>e. \<forall>(h, grp) \<in> set reg. h \<noteq> g \<longrightarrow>
                (\<exists>(f, fn) \<in> set (filters grp). selectionKey h f \<in> sel) \<longrightarrow>
                (\<exists>(f, fn) \<in> set (filters grp). selectionKey h f \<in> sel \<and> fn e)) es"
proof -
  have "matchesAll reg sel (Some g) =
     (\<lambda>e. \<forall>(h, grp) \<in> set reg. h \<noteq> g \<longrightarrow>
                (\<exists>(f, fn) \<in> set (filters grp). selectionKey h f \<in> sel) \<longrightarrow>
                (\<exists>(f, fn) \<in> set (filters grp). selectionKey h f \<in> sel \<and> fn e))"
    by (rule ext) (rule matchesAll_others_iff)
  then show ?thesis
    by (simp only: buildMatchingEntities_matchesAll)
qed

subsection \<open>The loops of buildStates\<close>

lemma map_of_foldl_assign_const:
  "map_of (foldl (\<lambda>ob e. assign (fst e) (snd e) ob) acc (map (\<lambda>k. (k, c)) ks)) k =
     (if k \<in> set ks then Some c else map_of acc k)"
  by (induction ks arbitrary: acc) (auto simp: map_of_assign)

lemma map_of_fromEntries_const:
  "map_of (fromEntries (map (\<lambda>k. (k, c)) ks)) k = (if k \<in> set ks then Some c else None)"
  by (simp add: fromEntries_def map_of_foldl_assign_const)

lemma keys_foldl_assign:
  "fst ` set (foldl (\<lambda>ob e. assign (fst e) (snd e) ob) acc es) = fst ` set acc \<union> fst ` set es"
  by (induction es arbitrary: acc) (auto simp: keys_assign)

lemma distinct_foldl_assign:
  "distinct (map fst acc) \<Longrightarrow> distinct (map fst (foldl (\<lambda>ob e. assign (fst e) (snd e) ob) acc es))"
  by (induction es arbitrary: acc) (auto simp: distinct_assign)

lemma groupState_loop_keep:
  "f \<notin> fst ` set fl \<Longrightarrow> map_of (groupState_loop g sel other fl acc) f = map_of acc f"
  by (induction g sel other fl acc rule: groupState_loop.induct) (auto simp: map_of_assign)

lemma map_of_groupState_loop:
  "distinct (map fst fl) \<Longrightarrow> (f, fn) \<in> set fl \<Longrightarrow>
   map_of (groupState_loop g sel other fl acc) f =
     Some \<lparr> isSelected = (selectionKey g f \<in> sel), matchCount = length (filter fn other) \<rparr>"
proof (induction g sel other fl acc rule: groupState_loop.induct)
  case (1 g sel other fs)
  then show ?case by simp
next
  case (2 g sel other filterId filterFn rest fs)
  show ?case
  proof (cases "(f, fn) \<in> set rest")
    case True
    with 2 show ?thesis by simp
  next
    case False
    with 2 have eq: "f = filterId" "fn = filterFn" and "f \<notin> fst ` set rest" by auto
    then show ?thesis
      by (simp add: groupState_loop_keep map_of_assign)
  qed
qed


lemma result_loop_keep:
  "g \<notin> fst ` set l \<Longrightarrow> map_of (result_loop reg sel es l acc) g = map_of acc g"
  by (induction reg sel es l acc rule: result_loop.induct) (auto simp: map_of_assign Let_def)

lemma map_of_result_loop:
  "distinct (map fst l) \<Longrightarrow> (g, grp) \<in> set l \<Longrightarrow>
   map_of (result_loop reg sel es l acc) g =
     Some (Ready \<lparr> state_filters =
             groupState_loop g sel (buildMatchingEntities reg sel (Some es) (Some g))
               (filters grp) [] \<rparr>)"
proof (induction reg sel es l acc rule: result_loop.induct)
  case (1 reg sel es result)
  then show ?case by simp
next
  case (2 reg sel es filterGroupId filterGroup rest result)
  show ?case
  proof (cases "(g, grp) \<in> set rest")
    case True
    with 2 show ?thesis by (simp add: Let_def)
  next
    case False
    with 2 have eq: "g = filterGroupId" "grp = filterGroup" and "g \<notin> fst ` set rest" by auto
    then show ?thesis
      by (simp add: result_loop_keep map_of_assign Let_def)
  qed
qed

lemma keys_result_loop:
  "fst ` set (result_loop reg sel es l acc) = fst ` set acc \<union> fst ` set l"
  by (induction reg sel es l acc rule: result_loop.induct) (auto simp: keys_assign Let_def)

lemma distinct_result_loop:
  "distinct (map fst acc) \<Longrightarrow> distinct (map fst (result_loop reg sel es l acc))"
  by (induction reg sel es l acc rule: result_loop.induct) (auto simp: distinct_assign Let_def)

lemma ready_result_loop:
  "g \<in> fst ` set l \<Longrightarrow> \<exists>st. map_of (result_loop reg sel es l acc) g = Some (Ready st)"
proof (induction reg sel es l acc rule: result_loop.induct)
  case (1 reg sel es result)
  then show ?case by simp
next
  case (2 reg sel es filterGroupId filterGroup rest result)
  show ?case
  proof (cases "g \<in> fst ` set rest")
    case True
    with 2 show ?thesis by (simp add: Let_def)
  next
    case False
    with 2 have "g = filterGroupId" by auto
    with False show ?thesis
      by (simp add: Let_def result_loop_keep map_of_assign)
  qed
qed

lemma keys_buildStates: "fst ` set (buildStates reg sel ents err) = fst ` set reg"
  by (auto simp: buildStates_def fromEntries_def keys_foldl_assign keys_result_loop image_image
           split: option.splits)

lemma distinct_buildStates: "distinct (map fst (buildStates reg sel ents err))"
  by (auto simp: buildStates_def fromEntries_def distinct_foldl_assign distinct_result_loop
           split: option.splits)

section \<open>Properties of the hook\<close>

subsection \<open>Selection keys\<close>

lemma fold_insert_selectionKey:
  "fold (\<lambda>key r. insert (selectionKey g key) r) ids A = A \<union> selectionKey g ` set ids"
  by (induction ids arbitrary: A) auto

lemma selectionKey_eq_iff: "selectionKey g f = selectionKey g f' \<longleftrightarrow> f = f'"
  by (simp add: selectionKey_def)

lemma prefix_selectionKey: "prefix (g @ ''.'') (selectionKey g f)"
  by (simp add: selectionKey_def)

lemma selectedFilterKeys_setGroupSelectedFilters:
  "selectedFilterKeys (setGroupSelectedFilters g ids s) =
     {key \<in> selectedFilterKeys s. \<not> prefix (g @ ''.'') key} \<union> selectionKey g ` set ids"
  by (simp add: setGroupSelectedFilters_def Let_def fold_insert_selectionKey)

lemma no_dot_not_prefix:
  assumes "CHR ''.'' \<notin> set g" and "CHR ''.'' \<notin> set h" and "h \<noteq> g"
  shows "\<not> prefix (g @ ''.'') (selectionKey h f)"
proof
  assume "prefix (g @ ''.'') (selectionKey h f)"
  then obtain zs where "h @ ''.'' @ f = (g @ ''.'') @ zs"
    by (auto simp: prefix_def selectionKey_def)
  then have "h @ (CHR ''.'' # f) = g @ (CHR ''.'' # zs)" by simp
  then show False
    using assms by (auto simp: append_eq_append_conv2 Cons_eq_append_conv append_eq_Cons_conv)
qed

subsection \<open>Registry and published states\<close>

text \<open>
  What the three callbacks publish, in general: the state map always has the keys of the
  registry of the render. For \<^verbatim>\<open>setGroupSelectedFilters\<close> that is the registry after
  the call; for \<^verbatim>\<open>register\<close> and \<^verbatim>\<open>unregister\<close> it is the registry before the call.
\<close>

lemma register_states_keys:
  "fst ` set (filterGroupStates (register g grp ini s)) = fst ` set (filterGroups s)"
  by (simp add: register_def Let_def keys_buildStates)

lemma register_registry_keys:
  "fst ` set (filterGroups (register g grp ini s)) = insert g (fst ` set (filterGroups s))"
  by (simp add: register_def Let_def keys_assign)

lemma unregister_states_keys:
  "fst ` set (filterGroupStates (unregister g s)) = fst ` set (filterGroups s)"
  by (simp add: unregister_def Let_def keys_buildStates)

lemma unregister_registry_keys:
  "fst ` set (filterGroups (unregister g s)) = fst ` set (filterGroups s) - {g}"
  by (simp add: unregister_def Let_def keys_delete_prop)

lemma unregister_selection: "selectedFilterKeys (unregister g s) = selectedFilterKeys s"
  by (simp add: unregister_def Let_def)

lemma setGroupSelectedFilters_states_keys:
  "fst ` set (filterGroupStates (setGroupSelectedFilters g ids s))
     = fst ` set (filterGroups (setGroupSelectedFilters g ids s))"
  by (simp add: setGroupSelectedFilters_def Let_def keys_buildStates)

lemma scenario_store_eval:
  "filterGroups scenario_store = scenario_groups"
  "selectedFilterKeys scenario_store = {''G2.f2'', ''G1.f1''}"
  "entities scenario_store = Some scenario_entities"
  "error scenario_store = None"
  by (simp_all add: scenario_store_def register_def initial_def scenario_groups_def Let_def
        selectionKey_def)

subsection \<open>A group registered last\<close>




section \<open>The claims\<close>

text \<open>
  C5. Without an entity collection \<^verbatim>\<open>buildMatchingEntities\<close> returns the empty
  sequence; with one, the result is a subsequence of it: only entities of the input,
  in the order of the input, none repeated or moved.
\<close>

theorem buildMatchingEntities_subseq:
  "buildMatchingEntities reg sel None excl = []
   \<and> subseq (buildMatchingEntities reg sel (Some es) excl) es"
  by (simp add: buildMatchingEntities_def)

text \<open>
  C2. With an entity collection and no excluded group, \<^verbatim>\<open>buildMatchingEntities\<close> returns
  exactly the entities that satisfy, for every group of the registry with at least one
  selected filter, one of the predicates of that group's selected filters (OR inside a
  group, AND across the groups). A group without a selected filter puts no condition on
  the entity, and when no group has one the condition is true of every entity.
\<close>

theorem buildMatchingEntities_and_of_or:
  "buildMatchingEntities reg sel (Some es) None =
     filter (\<lambda>e. \<forall>(g, grp) \<in> set reg.
                (\<exists>(f, fn) \<in> set (filters grp). selectionKey g f \<in> sel) \<longrightarrow>
                (\<exists>(f, fn) \<in> set (filters grp). selectionKey g f \<in> sel \<and> fn e)) es"
proof -
  have "matchesAll reg sel None =
     (\<lambda>e. \<forall>(g, grp) \<in> set reg.
                (\<exists>(f, fn) \<in> set (filters grp). selectionKey g f \<in> sel) \<longrightarrow>
                (\<exists>(f, fn) \<in> set (filters grp). selectionKey g f \<in> sel \<and> fn e))"
    by (rule ext) (simp add: matchesAll_iff)
  then show ?thesis
    by (simp only: buildMatchingEntities_matchesAll)
qed

theorem buildMatchingEntities_and_of_or_witness:
  "buildMatchingEntities scenario_groups {''G1.f1'', ''G2.f2''} (Some scenario_entities) None
     = [(3, ''a'')]
   \<and> buildMatchingEntities scenario_groups {''G1.f1''} (Some scenario_entities) None
     = [(1, ''a''), (3, ''a'')]"
  using buildMatchingEntities_and_of_or [of scenario_groups "{''G1.f1'', ''G2.f2''}" scenario_entities]
        buildMatchingEntities_and_of_or [of scenario_groups "{''G1.f1''}" scenario_entities]
  by (simp add: scenario_groups_def scenario_G1_def scenario_G2_def scenario_entities_def
        selectionKey_def)

text \<open>
  C3. With an entity collection and no error, for every group \<open>g\<close> of the registry and
  every filter \<open>f\<close> of \<open>g\<close>, the ready state of \<open>g\<close> has an entry for \<open>f\<close> whose
  \<open>matchCount\<close> is the number of entities that satisfy the predicate of \<open>f\<close> among
  the entities accepted by every group other than \<open>g\<close> (a group with a selected filter
  accepts an entity that one of its selected filters accepts; a group without one
  accepts every entity). The selection inside \<open>g\<close> plays no part in the count. That set
  of entities is what \<^verbatim>\<open>buildMatchingEntities(filterGroups, selectedFilterKeys, entities, g)\<close>
  returns, and \<open>isSelected\<close> tells whether the key of \<open>f\<close> is in the selection set. The
  registry and the group's filters are objects, so their keys are pairwise different.
  In the instance below \<open>a\<close> is selected in \<open>Tag\<close> and \<open>f2\<close> in \<open>G2\<close>: the count of
  \<open>b\<close> is 1, while no entity of the globally filtered sequence has the tag \<open>b\<close>.
\<close>

theorem matchCount_excludes_own_group:
  assumes "distinct (map fst reg)" and "(g, grp) \<in> set reg"
      and "distinct (map fst (filters grp))" and "(f, fn) \<in> set (filters grp)"
  shows "\<exists>st fs. map_of (buildStates reg sel (Some es) None) g = Some (Ready st)
            \<and> map_of (state_filters st) f = Some fs
            \<and> matchCount fs =
                length (filter fn
                  (filter (\<lambda>e. \<forall>(h, grp') \<in> set reg. h \<noteq> g \<longrightarrow>
                      (\<exists>(f', fn') \<in> set (filters grp'). selectionKey h f' \<in> sel) \<longrightarrow>
                      (\<exists>(f', fn') \<in> set (filters grp'). selectionKey h f' \<in> sel \<and> fn' e)) es))
            \<and> matchCount fs = length (filter fn (buildMatchingEntities reg sel (Some es) (Some g)))
            \<and> isSelected fs = (selectionKey g f \<in> sel)"
proof -
  let ?other = "buildMatchingEntities reg sel (Some es) (Some g)"
  let ?fs = "\<lparr> isSelected = (selectionKey g f \<in> sel), matchCount = length (filter fn ?other) \<rparr>"
  let ?st = "\<lparr> state_filters = groupState_loop g sel ?other (filters grp) [] \<rparr>"
  from assms(1,2) have "map_of (buildStates reg sel (Some es) None) g = Some (Ready ?st)"
    by (simp add: buildStates_def map_of_result_loop)
  moreover from assms(3,4) have "map_of (state_filters ?st) f = Some ?fs"
    by (simp add: map_of_groupState_loop)
  moreover have "matchCount ?fs =
      length (filter fn
        (filter (\<lambda>e. \<forall>(h, grp') \<in> set reg. h \<noteq> g \<longrightarrow>
            (\<exists>(f', fn') \<in> set (filters grp'). selectionKey h f' \<in> sel) \<longrightarrow>
            (\<exists>(f', fn') \<in> set (filters grp'). selectionKey h f' \<in> sel \<and> fn' e)) es))"
    by (simp add: buildMatchingEntities_others [symmetric])
  moreover have "matchCount ?fs = length (filter fn ?other)"
    and "isSelected ?fs = (selectionKey g f \<in> sel)"
    by simp_all
  ultimately show ?thesis by blast
qed



theorem matchCount_excludes_own_group_witness:
  "(\<exists>st fs. map_of (buildStates scenario_facets {''Tag.a'', ''G2.f2''} (Some scenario_entities) None)
                ''Tag'' = Some (Ready st)
      \<and> map_of (state_filters st) ''b'' = Some fs
      \<and> matchCount fs = 1
      \<and> \<not> isSelected fs)
   \<and> length (filter (\<lambda>e. snd e = ''b'')
        (buildMatchingEntities scenario_facets {''Tag.a'', ''G2.f2''} (Some scenario_entities) None))
      = 0"
proof (rule conjI)
  have h: "distinct (map fst scenario_facets)" "(''Tag'', scenario_Tag) \<in> set scenario_facets"
     "distinct (map fst (filters scenario_Tag))"
     "(''b'', \<lambda>e. snd e = ''b'') \<in> set (filters scenario_Tag)"
    by (simp_all add: scenario_facets_def scenario_Tag_def)
  have others: "length (filter (\<lambda>e. snd e = ''b'')
        (filter (\<lambda>e. \<forall>(h, grp') \<in> set scenario_facets. h \<noteq> ''Tag'' \<longrightarrow>
            (\<exists>(f', fn') \<in> set (filters grp'). selectionKey h f' \<in> {''Tag.a'', ''G2.f2''}) \<longrightarrow>
            (\<exists>(f', fn') \<in> set (filters grp'). selectionKey h f' \<in> {''Tag.a'', ''G2.f2''} \<and> fn' e))
          scenario_entities)) = 1"
    by (simp add: scenario_facets_def scenario_Tag_def scenario_G2_def scenario_entities_def
          selectionKey_def)
  have notsel: "selectionKey ''Tag'' ''b'' \<notin> {''Tag.a'', ''G2.f2''}"
    by (simp add: selectionKey_def)
  from matchCount_excludes_own_group [OF h, of "{''Tag.a'', ''G2.f2''}" scenario_entities]
  show "\<exists>st fs. map_of (buildStates scenario_facets {''Tag.a'', ''G2.f2''} (Some scenario_entities) None)
                ''Tag'' = Some (Ready st)
      \<and> map_of (state_filters st) ''b'' = Some fs
      \<and> matchCount fs = 1
      \<and> \<not> isSelected fs"
    unfolding others using notsel by metis
next
  show "length (filter (\<lambda>e. snd e = ''b'')
        (buildMatchingEntities scenario_facets {''Tag.a'', ''G2.f2''} (Some scenario_entities) None))
      = 0"
    by (simp add: buildMatchingEntities_def scenario_facets_def scenario_Tag_def scenario_G2_def
          scenario_entities_def selectionKey_def)
qed

text \<open>
  C4. \<^verbatim>\<open>buildStates\<close> has an entry for the registered groups and for nothing else, and
  it splits three ways. With an error every registered group has the error state with
  that very error (the state carries nothing else), whether or not entities are present
  and whatever the selection; without an error and without entities every registered
  group is loading; without an error and with entities every registered group is ready.
  So with an error no group is loading or ready.
\<close>

theorem buildStates_three_cases:
  "fst ` set (buildStates reg sel ents err) = fst ` set reg
   \<and> (\<forall>g \<in> fst ` set reg.
        map_of (buildStates reg sel ents (Some e)) g = Some (Error e)
      \<and> map_of (buildStates reg sel None None) g = Some Loading
      \<and> (\<exists>st. map_of (buildStates reg sel (Some es) None) g = Some (Ready st)))"
proof (intro conjI ballI)
  show "fst ` set (buildStates reg sel ents err) = fst ` set reg"
    by (rule keys_buildStates)
next
  fix g assume "g \<in> fst ` set reg"
  then show "map_of (buildStates reg sel ents (Some e)) g = Some (Error e)"
    by (simp add: buildStates_def map_of_fromEntries_const del: map_map)
next
  fix g assume "g \<in> fst ` set reg"
  then show "map_of (buildStates reg sel None None) g = Some Loading"
    by (simp add: buildStates_def map_of_fromEntries_const del: map_map)
next
  fix g assume "g \<in> fst ` set reg"
  then show "\<exists>st. map_of (buildStates reg sel (Some es) None) g = Some (Ready st)"
    by (simp add: buildStates_def ready_result_loop)
qed

theorem buildStates_three_cases_witness:
  "map_of (buildStates scenario_groups {''G1.f1''} (Some scenario_entities) (Some ''boom'')) ''G2''
     = Some (Error ''boom'')
   \<and> map_of (buildStates scenario_groups {''G1.f1''} None (None :: string option)) ''G2'' = Some Loading
   \<and> (\<exists>st. map_of (buildStates scenario_groups {''G1.f1''} (Some scenario_entities)
                     (None :: string option)) ''G2'' = Some (Ready st))"
proof -
  have "''G2'' \<in> fst ` set scenario_groups"
    by (simp add: scenario_groups_def)
  with buildStates_three_cases
         [of scenario_groups "{''G1.f1''}" "Some scenario_entities" "None :: string option"
             "''boom''" scenario_entities]
  show ?thesis by blast
qed

text \<open>
  C6. With an entity collection, when the selection set holds no key of any filter of
  any registered group, \<^verbatim>\<open>buildMatchingEntities\<close> returns the input sequence itself,
  unchanged and in the same order.
\<close>

theorem buildMatchingEntities_no_selection:
  assumes "\<forall>(g, grp) \<in> set reg. \<forall>(f, fn) \<in> set (filters grp). selectionKey g f \<notin> sel"
  shows "buildMatchingEntities reg sel (Some es) None = es"
proof -
  have "matchesAll reg sel None e" for e
    unfolding matchesAll_iff using assms by (auto simp: split_def)
  then show ?thesis by (simp add: buildMatchingEntities_matchesAll)
qed

theorem buildMatchingEntities_no_selection_witness:
  "buildMatchingEntities scenario_groups {''G3.f1'', ''G1.f2''} (Some scenario_entities) None
     = scenario_entities"
proof -
  have "\<forall>(g, grp) \<in> set scenario_groups. \<forall>(f, fn) \<in> set (filters grp).
          selectionKey g f \<notin> {''G3.f1'', ''G1.f2''}"
    by (simp add: scenario_groups_def scenario_G1_def scenario_G2_def selectionKey_def)
  then show ?thesis
    by (rule buildMatchingEntities_no_selection)
qed

text \<open>
  C1. The claim asks that the published state map has the keys of the registry after
  every mutation. The code builds the map from the registry of the render, not from the
  registry the mutation produces. At the first render with the entities loaded,
  \<^verbatim>\<open>register('G1', ...)\<close> puts \<open>G1\<close> into the registry and publishes a map without
  \<open>G1\<close>; with \<open>G1\<close> and \<open>G2\<close> registered, \<^verbatim>\<open>unregister('G1')\<close> takes \<open>G1\<close> out of
  the registry and publishes a map that still has \<open>G1\<close>.
\<close>

theorem register_unregister_publish_stale_states:
  "''G1'' \<in> fst ` set (filterGroups
       (register ''G1'' scenario_G1 None (initial (Some scenario_entities) (None :: string option))))
   \<and> ''G1'' \<notin> fst ` set (filterGroupStates
       (register ''G1'' scenario_G1 None (initial (Some scenario_entities) (None :: string option))))
   \<and> ''G1'' \<notin> fst ` set (filterGroups (unregister ''G1'' scenario_store))
   \<and> ''G1'' \<in> fst ` set (filterGroupStates (unregister ''G1'' scenario_store))"
  by (simp add: register_def unregister_def initial_def Let_def buildStates_def fromEntries_def
        scenario_store_eval scenario_groups_def delete_prop_def)

text \<open>
  C7, amended. After \<^verbatim>\<open>setGroupSelectedFilters(g, ids)\<close> (a) and (b): a key that starts
  with \<^verbatim>\<open>`${g}.`\<close> is in the selection set exactly when it is the key of \<open>g\<close> and an
  id of the input, so the earlier keys with that prefix are gone unless the input names
  them again, and the key of \<open>g\<close> and \<open>f\<close> is in the set exactly when \<open>f\<close> is in the
  input, however often; (c) a key that does not start with \<^verbatim>\<open>`${g}.`\<close> is in the set
  exactly when it was before. The keys of another group \<open>h\<close> are of that kind whenever
  neither \<open>g\<close> nor \<open>h\<close> contains a dot.
\<close>

theorem setGroupSelectedFilters_replaces_group_keys:
  "(\<forall>key. prefix (g @ ''.'') key \<longrightarrow>
       (key \<in> selectedFilterKeys (setGroupSelectedFilters g ids s)
          \<longleftrightarrow> key \<in> selectionKey g ` set ids))
   \<and> (\<forall>f. selectionKey g f \<in> selectedFilterKeys (setGroupSelectedFilters g ids s)
          \<longleftrightarrow> f \<in> set ids)
   \<and> (\<forall>key. \<not> prefix (g @ ''.'') key \<longrightarrow>
       (key \<in> selectedFilterKeys (setGroupSelectedFilters g ids s)
          \<longleftrightarrow> key \<in> selectedFilterKeys s))
   \<and> (\<forall>h f. h \<noteq> g \<and> CHR ''.'' \<notin> set g \<and> CHR ''.'' \<notin> set h \<longrightarrow>
       (selectionKey h f \<in> selectedFilterKeys (setGroupSelectedFilters g ids s)
          \<longleftrightarrow> selectionKey h f \<in> selectedFilterKeys s))"
proof (intro conjI allI impI)
  fix key assume "prefix (g @ ''.'') key"
  then show "key \<in> selectedFilterKeys (setGroupSelectedFilters g ids s)
          \<longleftrightarrow> key \<in> selectionKey g ` set ids"
    by (simp add: selectedFilterKeys_setGroupSelectedFilters)
next
  fix f
  have "selectionKey g f \<in> selectionKey g ` set ids \<longleftrightarrow> f \<in> set ids"
    by (auto simp: selectionKey_eq_iff)
  then show "selectionKey g f \<in> selectedFilterKeys (setGroupSelectedFilters g ids s)
          \<longleftrightarrow> f \<in> set ids"
    by (simp add: selectedFilterKeys_setGroupSelectedFilters prefix_selectionKey)
next
  fix key assume "\<not> prefix (g @ ''.'') key"
  moreover from this have "key \<notin> selectionKey g ` set ids"
    using prefix_selectionKey by auto
  ultimately show "key \<in> selectedFilterKeys (setGroupSelectedFilters g ids s)
          \<longleftrightarrow> key \<in> selectedFilterKeys s"
    by (simp add: selectedFilterKeys_setGroupSelectedFilters)
next
  fix h f assume "h \<noteq> g \<and> CHR ''.'' \<notin> set g \<and> CHR ''.'' \<notin> set h"
  then have np: "\<not> prefix (g @ ''.'') (selectionKey h f)"
    by (simp add: no_dot_not_prefix)
  moreover from np have "selectionKey h f \<notin> selectionKey g ` set ids"
    using prefix_selectionKey by auto
  ultimately show "selectionKey h f \<in> selectedFilterKeys (setGroupSelectedFilters g ids s)
          \<longleftrightarrow> selectionKey h f \<in> selectedFilterKeys s"
    by (simp add: selectedFilterKeys_setGroupSelectedFilters)
qed

theorem setGroupSelectedFilters_replaces_group_keys_witness:
  "''G1.f1'' \<notin> selectedFilterKeys (setGroupSelectedFilters ''G1'' [''f9'', ''f9''] scenario_store)
   \<and> ''G1.f9'' \<in> selectedFilterKeys (setGroupSelectedFilters ''G1'' [''f9'', ''f9''] scenario_store)
   \<and> ''G2.f2'' \<in> selectedFilterKeys (setGroupSelectedFilters ''G1'' [''f9'', ''f9''] scenario_store)"
  using setGroupSelectedFilters_replaces_group_keys [of "''G1''" "[''f9'', ''f9'']" scenario_store]
  apply (elim conjE)
  subgoal premises p
    using p(1) [rule_format, of "''G1.f1''"] p(2) [rule_format, of "''f9''"]
          p(4) [rule_format, of "''G2''" "''f2''"]
    by (simp add: selectionKey_def scenario_store_eval)
  done

text \<open>
  C7 as stated fails: the key of filter \<open>f\<close> of the group \<open>G1.sub\<close> belongs to another
  group than \<open>G1\<close>, and \<^verbatim>\<open>setGroupSelectedFilters('G1', ['f1'])\<close> removes it.
\<close>

theorem setGroupSelectedFilters_other_group_key_removed:
  "''G1.sub'' \<noteq> ''G1''
   \<and> selectionKey ''G1.sub'' ''f'' \<in> selectedFilterKeys
        (setGroupSelectedFilters ''G1.sub'' [''f''] scenario_store)
   \<and> selectionKey ''G1.sub'' ''f'' \<notin> selectedFilterKeys
        (setGroupSelectedFilters ''G1'' [''f1'']
          (setGroupSelectedFilters ''G1.sub'' [''f''] scenario_store))"
  by (simp add: selectedFilterKeys_setGroupSelectedFilters selectionKey_def)

text \<open>
  C8. With \<open>G1\<close> and \<open>G2\<close> registered, \<^verbatim>\<open>unregister('G2')\<close> removes \<open>G2\<close> from the
  registry and leaves the selection set as it is, but the published state map keeps a
  ready entry for \<open>G2\<close>: the deletion of the entry is overwritten by the map built from
  the registry of the render.
\<close>

theorem unregister_keeps_state_entry:
  "map_of (filterGroups scenario_store) ''G2'' = Some scenario_G2
   \<and> map_of (filterGroups (unregister ''G2'' scenario_store)) ''G2'' = None
   \<and> selectedFilterKeys (unregister ''G2'' scenario_store) = selectedFilterKeys scenario_store
   \<and> map_of (filterGroupStates (unregister ''G2'' scenario_store)) ''G2''
       = Some (Ready \<lparr> state_filters = [(''f2'', \<lparr> isSelected = True, matchCount = 1 \<rparr>)] \<rparr>)"
  by (simp add: unregister_def Let_def buildStates_def buildMatchingEntities_def
        scenario_store_eval scenario_groups_def scenario_G1_def scenario_G2_def
        scenario_entities_def delete_prop_def selectionKey_def)



text \<open>
  selectionKey_not_injective. The pairs \<open>(a, b.x)\<close> and \<open>(a.b, x)\<close> are different and have the same selection
  key \<open>a.b.x\<close>. With a group \<open>a\<close> holding a filter \<open>b.x\<close> and a group \<open>a.b\<close> holding a
  filter \<open>x\<close>, selecting \<open>x\<close> in \<open>a.b\<close> puts that one key into the selection set, the
  state of \<open>a\<close> reports \<open>b.x\<close> as selected, and the matching entities are filtered by
  both predicates. And \<^verbatim>\<open>setGroupSelectedFilters(g, [])\<close> leaves no selection key of any
  group whose id starts with \<^verbatim>\<open>`${g}.`\<close>.
\<close>

theorem selectionKey_not_injective:
  "(''a'', ''b.x'') \<noteq> (''a.b'', ''x'')
   \<and> selectionKey ''a'' ''b.x'' = ''a.b.x''
   \<and> selectionKey ''a.b'' ''x'' = ''a.b.x''
   \<and> selectedFilterKeys
        (setGroupSelectedFilters ''a.b'' [''x'']
          (register ''a.b'' \<lparr> filters = [(''x'', q)] \<rparr> None
            (register ''a'' \<lparr> filters = [(''b.x'', p)] \<rparr> None (initial (Some es) None))))
       = {''a.b.x''}
   \<and> map_of (filterGroupStates
        (setGroupSelectedFilters ''a.b'' [''x'']
          (register ''a.b'' \<lparr> filters = [(''x'', q)] \<rparr> None
            (register ''a'' \<lparr> filters = [(''b.x'', p)] \<rparr> None (initial (Some es) None))))) ''a''
       = Some (Ready \<lparr> state_filters =
           [(''b.x'', \<lparr> isSelected = True, matchCount = length (filter p (filter q es)) \<rparr>)] \<rparr>)
   \<and> matchingEntities
        (setGroupSelectedFilters ''a.b'' [''x'']
          (register ''a.b'' \<lparr> filters = [(''x'', q)] \<rparr> None
            (register ''a'' \<lparr> filters = [(''b.x'', p)] \<rparr> None (initial (Some es) None))))
       = filter (\<lambda>e. p e \<and> q e) es
   \<and> (\<forall>g h f. \<forall>s :: ('e, 'err) store. prefix (g @ ''.'') h \<longrightarrow>
         selectionKey h f \<notin> selectedFilterKeys (setGroupSelectedFilters g [] s))"
proof (intro conjI allI impI)
  fix g h f and s :: "('e, 'err) store"
  assume "prefix (g @ ''.'') h"
  then have "prefix (g @ ''.'') (selectionKey h f)"
    by (simp add: selectionKey_def prefix_prefix)
  then show "selectionKey h f \<notin> selectedFilterKeys (setGroupSelectedFilters g [] s)"
    by (simp add: selectedFilterKeys_setGroupSelectedFilters)
qed (simp_all add: selectionKey_def setGroupSelectedFilters_def register_def initial_def Let_def
       buildStates_def buildMatchingEntities_def)

theorem selectionKey_not_injective_witness:
  "prefix ''a.'' ''a.b''
   \<and> ''a.b.x'' \<in> selectedFilterKeys (setGroupSelectedFilters ''a.b'' [''x''] scenario_store)
   \<and> ''a.b.x'' \<notin> selectedFilterKeys
        (setGroupSelectedFilters ''a'' [] (setGroupSelectedFilters ''a.b'' [''x''] scenario_store))"
proof -
  have h: "prefix (''a'' @ ''.'') ''a.b''" by simp
  from selectionKey_not_injective [where 'e = "nat \<times> string" and 'err = string]
  have "\<forall>g h f. \<forall>s :: (nat \<times> string, string) store. prefix (g @ ''.'') h \<longrightarrow>
         selectionKey h f \<notin> selectedFilterKeys (setGroupSelectedFilters g [] s)"
    by blast
  from this [rule_format, OF h, of "''x''" "setGroupSelectedFilters ''a.b'' [''x''] scenario_store"]
  show ?thesis
    by (simp add: selectionKey_def selectedFilterKeys_setGroupSelectedFilters)
qed

end
